theory Spec2Isabelle
  imports Main
begin

section \<open>The payload type\<close>

text \<open>
  \<open>keel::Optional<T>\<close> is a template: everything it does to a payload goes through
  operations that the payload type \<open>T\<close> supplies. They are the parameters of the model.
  A payload value is a HOL value of type \<open>'a\<close>; what a constructor of \<open>T\<close> reads
  through its argument list is a value of type \<open>'g\<close>.

  \<^item> \<open>copy_throws v\<close>: \<open>T(const T&)\<close> raises when copying \<open>v\<close>; otherwise the new object
    has the value \<open>v\<close>.
  \<^item> \<open>move_throws v\<close>: \<open>T(T&&)\<close> raises when moving from \<open>v\<close>; otherwise the new object
    has the value \<open>v\<close> had before the call.
  \<^item> \<open>moved_from v\<close>: the valid but unspecified value the source of \<open>T(T&&)\<close> is left
    with, whether the constructor returns or raises.
  \<^item> \<open>construct args\<close>: \<open>T(args...)\<close>, run on the values its arguments designate. The
    first component is the new object, \<open>None\<close> when the selected constructor raises;
    the second is what the constructor leaves in its arguments (it may move from them).
  \<^item> \<open>equals\<close>, \<open>not_equals\<close>: \<open>T\<close>'s own \<open>operator==\<close> and \<open>operator!=\<close>, two separate
    functions as they are in C++.
  \<open>~T()\<close> does not raise (\<open>Reset\<close> is \<open>noexcept\<close>).
\<close>

record ('a, 'g) payload_type =
  copy_throws :: "'a \<Rightarrow> bool"
  move_throws :: "'a \<Rightarrow> bool"
  moved_from :: "'a \<Rightarrow> 'a"
  construct :: "'g \<Rightarrow> 'a option \<times> 'g"
  equals :: "'a \<Rightarrow> 'a \<Rightarrow> bool"
  not_equals :: "'a \<Rightarrow> 'a \<Rightarrow> bool"

section \<open>Storage and the container\<close>

text \<open>
  \<open>detail::TypeCompatibleBytes<T>\<close> is \<open>sizeof(T)\<close> raw bytes. What matters of them is
  whether a constructed, not yet destroyed \<open>T\<close> lives there, and which.
\<close>

datatype 'a TypeCompatibleBytes = NoObject | Holds 'a

text \<open>
  Two ways an operation can go wrong without an exception: \<open>KEEL_ASSERT\<close> fails, or
  the code uses as a \<open>T\<close> bytes in which no \<open>T\<close> lives.
\<close>

datatype fault = AssertionFailure | UndefinedBehaviour

text \<open>
  \<open>TypeCompatibleBytes::Get\<close>, where the returned reference is used as a \<open>T\<close> (read,
  copied, moved from, compared, destroyed). Where the source only takes its address,
  \<open>&m_Value.Get()\<close>, nothing is read and the model does not call \<open>Get\<close>.
\<close>

definition Get :: "'a TypeCompatibleBytes \<Rightarrow> fault + 'a" where
  "Get m_Bytes = (case m_Bytes of NoObject \<Rightarrow> Inl UndefinedBehaviour | Holds v \<Rightarrow> Inr v)"

record 'a Optional =
  m_Value :: "'a TypeCompatibleBytes"
  m_HasValue :: bool

text \<open>
  How a call ends: it returns, it propagates an exception of a payload constructor
  (leaving some state behind), or it faults.
\<close>

datatype ('r, 's) outcome = Returns 'r | Throws 's | Fault fault

text \<open>The invariant of the data model: the flag is set exactly when a payload lives.\<close>

definition presence_invariant :: "'a Optional \<Rightarrow> bool" where
  "presence_invariant this = (m_HasValue this = (m_Value this \<noteq> NoObject))"

subsection \<open>Queries\<close>

definition HasValue :: "'a Optional \<Rightarrow> bool" where
  "HasValue this = m_HasValue this"

text \<open>\<open>GetValue\<close>, read through the reference it returns; the assertion is compiled in.\<close>

definition GetValue :: "'a Optional \<Rightarrow> fault + 'a" where
  "GetValue this = (if HasValue this then Get (m_Value this) else Inl AssertionFailure)"

subsection \<open>Reset and the destructor\<close>

definition Reset :: "'a Optional \<Rightarrow> fault + 'a Optional" where
  "Reset this =
     (if m_HasValue this then
        (case Get (m_Value this) of
           Inl f \<Rightarrow> Inl f
         | Inr v \<Rightarrow> Inr (this\<lparr>m_Value := NoObject, m_HasValue := False\<rparr>))
      else Inr this)"

definition Optional_dtor :: "'a Optional \<Rightarrow> fault + 'a Optional" where
  "Optional_dtor this = Reset this"

subsection \<open>Constructors\<close>

text \<open>
  A constructor that raises leaves no container behind: \<open>Throws\<close> carries only what
  became of the source. The fields of the new object start indeterminate; the storage
  holds no object until the placement \<open>new\<close> has run.
\<close>

definition Optional_default :: "'a Optional" where
  "Optional_default = \<lparr>m_Value = NoObject, m_HasValue = False\<rparr>"

text \<open>\<open>Optional(const T& Value)\<close>\<close>

definition Optional_value :: "('a, 'g) payload_type \<Rightarrow> 'a \<Rightarrow> ('a Optional, unit) outcome" where
  "Optional_value T Value =
     (if copy_throws T Value then Throws ()
      else Returns \<lparr>m_Value = Holds Value, m_HasValue = True\<rparr>)"

text \<open>\<open>Optional(T&& Value)\<close>: the result is the container and what is left in \<open>Value\<close>.\<close>

definition Optional_rvalue ::
  "('a, 'g) payload_type \<Rightarrow> 'a \<Rightarrow> ('a Optional \<times> 'a, 'a) outcome" where
  "Optional_rvalue T Value =
     (if move_throws T Value then Throws (moved_from T Value)
      else Returns (\<lparr>m_Value = Holds Value, m_HasValue = True\<rparr>, moved_from T Value))"

text \<open>\<open>Optional(const Optional& Value)\<close>\<close>

definition Optional_copy ::
  "('a, 'g) payload_type \<Rightarrow> 'a Optional \<Rightarrow> ('a Optional, unit) outcome" where
  "Optional_copy T Value =
     (let this = \<lparr>m_Value = NoObject, m_HasValue = m_HasValue Value\<rparr> in
      if m_HasValue Value then
        (case Get (m_Value Value) of
           Inl f \<Rightarrow> Fault f
         | Inr v \<Rightarrow> if copy_throws T v then Throws () else Returns (this\<lparr>m_Value := Holds v\<rparr>))
      else Returns this)"

text \<open>
  \<open>Optional(Optional&& Value)\<close>: the result is the new container and the source as the
  constructor leaves it. Nothing in the body writes \<open>Value.m_HasValue\<close>.
\<close>

definition Optional_move ::
  "('a, 'g) payload_type \<Rightarrow> 'a Optional \<Rightarrow> ('a Optional \<times> 'a Optional, 'a Optional) outcome" where
  "Optional_move T Value =
     (let this = \<lparr>m_Value = NoObject, m_HasValue = m_HasValue Value\<rparr> in
      if m_HasValue Value then
        (case Get (m_Value Value) of
           Inl f \<Rightarrow> Fault f
         | Inr v \<Rightarrow>
             let Value1 = Value\<lparr>m_Value := Holds (moved_from T v)\<rparr> in
             if move_throws T v then Throws Value1
             else Returns (this\<lparr>m_Value := Holds v\<rparr>, Value1))
      else Returns (this, Value))"

subsection \<open>Comparison\<close>

text \<open>
  The two operator templates after the class. Each tests the flags first and touches
  the payloads only in its last statement, through \<open>T\<close>'s \<open>operator==\<close> and \<open>T\<close>'s
  \<open>operator!=\<close> respectively.
\<close>

definition operator_eq :: "('a, 'g) payload_type \<Rightarrow> 'a Optional \<Rightarrow> 'a Optional \<Rightarrow> fault + bool" where
  "operator_eq T lhs rhs =
     (if m_HasValue lhs \<noteq> m_HasValue rhs then Inr False
      else if \<not> m_HasValue lhs then Inr True
      else
        (case Get (m_Value lhs) of
           Inl f \<Rightarrow> Inl f
         | Inr x \<Rightarrow>
             (case Get (m_Value rhs) of
                Inl f \<Rightarrow> Inl f
              | Inr y \<Rightarrow> Inr (equals T x y))))"

definition operator_neq :: "('a, 'g) payload_type \<Rightarrow> 'a Optional \<Rightarrow> 'a Optional \<Rightarrow> fault + bool" where
  "operator_neq T lhs rhs =
     (if m_HasValue lhs \<noteq> m_HasValue rhs then Inr True
      else if \<not> m_HasValue lhs then Inr False
      else
        (case Get (m_Value lhs) of
           Inl f \<Rightarrow> Inl f
         | Inr x \<Rightarrow>
             (case Get (m_Value rhs) of
                Inl f \<Rightarrow> Inl f
              | Inr y \<Rightarrow> Inr (not_equals T x y))))"

text \<open>\<open>!\<close> applied to the result of a comparison that came back.\<close>

definition negated :: "fault + bool \<Rightarrow> fault + bool" where
  "negated r = (case r of Inl f \<Rightarrow> Inl f | Inr b \<Rightarrow> Inr (\<not> b))"

section \<open>Operations over a memory\<close>

text \<open>
  The assignment operators compare addresses, and \<open>Emplace\<close> and \<open>Get\<close> take
  references that may designate the container's own payload, so they are modelled
  over a memory:
  containers and free-standing \<open>T\<close> objects, each at an address. A \<open>T&\<close> designates the
  payload storage of a container or a free-standing object.
\<close>

type_synonym addr = nat

record 'a memory =
  optionals :: "addr \<Rightarrow> 'a Optional"
  objects :: "addr \<Rightarrow> 'a"

datatype reference = PayloadOf addr | ObjectAt addr

definition read :: "'a memory \<Rightarrow> reference \<Rightarrow> fault + 'a" where
  "read M r =
     (case r of
        PayloadOf a \<Rightarrow> Get (m_Value (optionals M a))
      | ObjectAt k \<Rightarrow> Inr (objects M k))"

definition store :: "addr \<Rightarrow> 'a Optional \<Rightarrow> 'a memory \<Rightarrow> 'a memory" where
  "store this obj M = M\<lparr>optionals := (optionals M)(this := obj)\<rparr>"

text \<open>What a move constructor leaves in the object it moved from.\<close>

definition leave :: "reference \<Rightarrow> 'a \<Rightarrow> 'a memory \<Rightarrow> 'a memory" where
  "leave r v M =
     (case r of
        PayloadOf a \<Rightarrow> store a ((optionals M a)\<lparr>m_Value := Holds v\<rparr>) M
      | ObjectAt k \<Rightarrow> M\<lparr>objects := (objects M)(k := v)\<rparr>)"

definition Reset_at :: "addr \<Rightarrow> 'a memory \<Rightarrow> fault + 'a memory" where
  "Reset_at this M =
     (case Reset (optionals M this) of
        Inl f \<Rightarrow> Inl f
      | Inr obj \<Rightarrow> Inr (store this obj M))"

text \<open>\<open>m_HasValue = b;\<close>\<close>

definition set_HasValue :: "addr \<Rightarrow> bool \<Rightarrow> 'a memory \<Rightarrow> 'a memory" where
  "set_HasValue this b M = store this ((optionals M this)\<lparr>m_HasValue := b\<rparr>) M"

text \<open>\<open>new(&m_Value.Get()) T(...)\<close>, once the constructor of \<open>T\<close> has produced \<open>v\<close>.\<close>

definition placement_new :: "addr \<Rightarrow> 'a \<Rightarrow> 'a memory \<Rightarrow> 'a memory" where
  "placement_new this v M = store this ((optionals M this)\<lparr>m_Value := Holds v\<rparr>) M"

subsection \<open>Emplace\<close>

text \<open>
  \<open>Emplace(ArgsT&&... Args)\<close> takes forwarding references: each argument is bound to
  an object, and \<open>T\<close>'s constructor reads through it only when it runs, after \<open>Reset()\<close>.
  An argument is a reference into a \<open>T\<close> object of the memory (the payload of a
  container, this one included, or a free-standing object), or a reference to an
  object of another type, which cannot lie in payload storage and is carried by its
  value. Unlike the value assignment operators, \<open>Emplace\<close> compares no addresses.
\<close>

datatype 'x argument = Ref reference | Val 'x

text \<open>What the constructor reads through the arguments, in the memory as it is then.\<close>

fun read_arguments :: "'a memory \<Rightarrow> 'x argument list \<Rightarrow> fault + ('a + 'x) list" where
  "read_arguments M [] = Inr []"
| "read_arguments M (Ref r # Args) =
     (case read M r of
        Inl f \<Rightarrow> Inl f
      | Inr v \<Rightarrow>
          (case read_arguments M Args of
             Inl f \<Rightarrow> Inl f
           | Inr vs \<Rightarrow> Inr (Inl v # vs)))"
| "read_arguments M (Val x # Args) =
     (case read_arguments M Args of
        Inl f \<Rightarrow> Inl f
      | Inr vs \<Rightarrow> Inr (Inr x # vs))"

text \<open>
  What the constructor leaves in the \<open>T\<close> objects its arguments designate. Objects of
  other types are not part of the memory.
\<close>

fun leave_arguments :: "'x argument list \<Rightarrow> ('a + 'x) list \<Rightarrow> 'a memory \<Rightarrow> 'a memory" where
  "leave_arguments (Ref r # Args) (Inl v # vs) M = leave_arguments Args vs (leave r v M)"
| "leave_arguments (a # Args) (w # vs) M = leave_arguments Args vs M"
| "leave_arguments Args vs M = M"

definition Emplace ::
  "('a, ('a + 'x) list) payload_type \<Rightarrow> addr \<Rightarrow> 'x argument list \<Rightarrow> 'a memory
     \<Rightarrow> ('a memory, 'a memory) outcome" where
  "Emplace T this Args M =
     (case Reset_at this M of
        Inl f \<Rightarrow> Fault f
      | Inr M1 \<Rightarrow>
          (case read_arguments M1 Args of
             Inl f \<Rightarrow> Fault f
           | Inr vs \<Rightarrow>
               let M2 = leave_arguments Args (snd (construct T vs)) M1 in
               (case fst (construct T vs) of
                  None \<Rightarrow> Throws M2
                | Some v \<Rightarrow> Returns (set_HasValue this True (placement_new this v M2)))))"

subsection \<open>Access with a default\<close>

text \<open>
  \<open>const T& Get(const T& DefaultValue) const\<close> returns one of two references and reads
  neither. The member function is \<open>const\<close> and the class has no \<open>mutable\<close> member: it
  yields a reference and no new memory.
\<close>

definition Optional_Get :: "addr \<Rightarrow> reference \<Rightarrow> 'a memory \<Rightarrow> reference" where
  "Optional_Get this DefaultValue M =
     (if HasValue (optionals M this) then PayloadOf this else DefaultValue)"

subsection \<open>The four assignment operators\<close>

text \<open>\<open>Optional& operator=(const Optional& Value)\<close>\<close>

definition operator_assign_copy ::
  "('a, 'g) payload_type \<Rightarrow> addr \<Rightarrow> addr \<Rightarrow> 'a memory \<Rightarrow> ('a memory, 'a memory) outcome" where
  "operator_assign_copy T this Value M =
     (if Value \<noteq> this then
        (case Reset_at this M of
           Inl f \<Rightarrow> Fault f
         | Inr M1 \<Rightarrow>
             let M2 = set_HasValue this (m_HasValue (optionals M1 Value)) M1 in
             if m_HasValue (optionals M2 Value) then
               (case Get (m_Value (optionals M2 Value)) of
                  Inl f \<Rightarrow> Fault f
                | Inr v \<Rightarrow>
                    if copy_throws T v then Throws M2
                    else Returns (placement_new this v M2))
             else Returns M2)
      else Returns M)"

text \<open>\<open>Optional& operator=(Optional&& Value)\<close>\<close>

definition operator_assign_move ::
  "('a, 'g) payload_type \<Rightarrow> addr \<Rightarrow> addr \<Rightarrow> 'a memory \<Rightarrow> ('a memory, 'a memory) outcome" where
  "operator_assign_move T this Value M =
     (if Value \<noteq> this then
        (case Reset_at this M of
           Inl f \<Rightarrow> Fault f
         | Inr M1 \<Rightarrow>
             let M2 = set_HasValue this (m_HasValue (optionals M1 Value)) M1 in
             if m_HasValue (optionals M2 Value) then
               (case Get (m_Value (optionals M2 Value)) of
                  Inl f \<Rightarrow> Fault f
                | Inr v \<Rightarrow>
                    let M3 = leave (PayloadOf Value) (moved_from T v) M2 in
                    if move_throws T v then Throws M3
                    else Returns (placement_new this v M3))
             else Returns M2)
      else Returns M)"

text \<open>\<open>Optional& operator=(const T& Value)\<close>\<close>

definition operator_assign_value ::
  "('a, 'g) payload_type \<Rightarrow> addr \<Rightarrow> reference \<Rightarrow> 'a memory \<Rightarrow> ('a memory, 'a memory) outcome" where
  "operator_assign_value T this Value M =
     (if Value \<noteq> PayloadOf this then
        (case Reset_at this M of
           Inl f \<Rightarrow> Fault f
         | Inr M1 \<Rightarrow>
             (case read M1 Value of
                Inl f \<Rightarrow> Fault f
              | Inr v \<Rightarrow>
                  if copy_throws T v then Throws M1
                  else Returns (set_HasValue this True (placement_new this v M1))))
      else Returns M)"

text \<open>\<open>Optional& operator=(T&& Value)\<close>\<close>

definition operator_assign_rvalue ::
  "('a, 'g) payload_type \<Rightarrow> addr \<Rightarrow> reference \<Rightarrow> 'a memory \<Rightarrow> ('a memory, 'a memory) outcome" where
  "operator_assign_rvalue T this Value M =
     (if Value \<noteq> PayloadOf this then
        (case Reset_at this M of
           Inl f \<Rightarrow> Fault f
         | Inr M1 \<Rightarrow>
             (case read M1 Value of
                Inl f \<Rightarrow> Fault f
              | Inr v \<Rightarrow>
                  let M2 = leave Value (moved_from T v) M1 in
                  if move_throws T v then Throws M2
                  else Returns (set_HasValue this True (placement_new this v M2))))
      else Returns M)"

section \<open>Payload types and memories for the examples\<close>

text \<open>
  An \<open>int\<close>-like payload whose copy and move constructors raise on negative values,
  whose moved-from value is \<open>0\<close>, and whose comparisons are the usual ones. Its other
  constructors take \<open>int\<close>-like arguments, make the sum of them, raise when the sum is
  negative, and leave their arguments as they were.
\<close>

definition amount :: "int + int \<Rightarrow> int" where
  "amount w = (case w of Inl v \<Rightarrow> v | Inr n \<Rightarrow> n)"

definition guarded_int :: "(int, (int + int) list) payload_type" where
  "guarded_int =
     \<lparr>copy_throws = (\<lambda>v. v < 0), move_throws = (\<lambda>v. v < 0), moved_from = (\<lambda>v. 0),
      construct =
        (\<lambda>vs. (if sum_list (map amount vs) < 0 then None else Some (sum_list (map amount vs)),
               vs)),
      equals = (\<lambda>x y. x = y), not_equals = (\<lambda>x y. x \<noteq> y)\<rparr>"

text \<open>The same payload with an \<open>operator!=\<close> that compares something else: the parity.\<close>

definition parity_int :: "(int, (int + int) list) payload_type" where
  "parity_int = guarded_int\<lparr>not_equals := (\<lambda>x y. x mod 2 \<noteq> y mod 2)\<rparr>"

definition present :: "'a \<Rightarrow> 'a Optional" where
  "present v = \<lparr>m_Value = Holds v, m_HasValue = True\<rparr>"

text \<open>
  A memory with a container holding \<open>5\<close> at address 0, one holding \<open>-1\<close> at address 1,
  empty containers elsewhere, and the free-standing object \<open>k - 1\<close> at each address
  \<open>k\<close>.
\<close>

definition mem0 :: "int memory" where
  "mem0 =
     \<lparr>optionals = (\<lambda>a. Optional_default)(0 := present 5, 1 := present (- 1)),
      objects = (\<lambda>k. int k - 1)\<rparr>"

section \<open>Auxiliary facts\<close>

lemma Reset_present:
  "m_HasValue a \<Longrightarrow> m_Value a = Holds v \<Longrightarrow>
     Reset a = Inr (a\<lparr>m_Value := NoObject, m_HasValue := False\<rparr>)"
  by (simp add: Reset_def Get_def)

lemma Reset_empty: "\<not> m_HasValue a \<Longrightarrow> Reset a = Inr a"
  by (simp add: Reset_def)

lemma invariant_cases:
  "presence_invariant a \<Longrightarrow>
     (\<not> m_HasValue a \<and> m_Value a = NoObject) \<or> (m_HasValue a \<and> (\<exists>v. m_Value a = Holds v))"
  by (cases "m_Value a") (auto simp: presence_invariant_def)

lemma Reset_invariant:
  "presence_invariant a \<Longrightarrow> Reset a = Inr (a\<lparr>m_Value := NoObject, m_HasValue := False\<rparr>)"
  by (auto dest!: invariant_cases simp: Reset_present Reset_empty)

lemma Optional_cleared:
  "(x::'a Optional)\<lparr>m_Value := NoObject, m_HasValue := False\<rparr> = Optional_default"
  by (cases x) (simp add: Optional_default_def)

lemma Reset_at_invariant:
  "presence_invariant (optionals M this) \<Longrightarrow>
     Reset_at this M = Inr (store this Optional_default M)"
  by (simp add: Reset_at_def Reset_invariant Optional_cleared)

lemma optionals_store:
  "optionals (store this obj M) a = (if a = this then obj else optionals M a)"
  by (simp add: store_def)

lemma objects_store: "objects (store this obj M) = objects M"
  by (simp add: store_def)

lemma store_store: "store this x (store this y M) = store this x M"
  by (simp add: store_def)

lemma invariant_present: "presence_invariant (present v)"
  by (simp add: presence_invariant_def present_def)

lemma invariant_default: "presence_invariant Optional_default"
  by (simp add: presence_invariant_def Optional_default_def)

lemma read_store_other:
  "r \<noteq> PayloadOf this \<Longrightarrow> read (store this obj M) r = read M r"
  by (cases r) (simp_all add: read_def optionals_store objects_store)

lemma invariant_flagged:
  "presence_invariant (x\<lparr>m_Value := Holds v, m_HasValue := True\<rparr>)"
  by (simp add: presence_invariant_def)

lemma invariant_refilled:
  "presence_invariant x \<Longrightarrow> m_Value x = Holds v \<Longrightarrow>
     presence_invariant (x\<lparr>m_Value := Holds w\<rparr>)"
  by (simp add: presence_invariant_def)

lemma read_fault: "read M r = Inl f \<Longrightarrow> f = UndefinedBehaviour"
  by (cases r; cases "m_Value (optionals M (case r of PayloadOf a \<Rightarrow> a | ObjectAt k \<Rightarrow> k))")
     (auto simp: read_def Get_def)

lemma read_own_payload_destroyed:
  "m_Value (optionals M this) = NoObject \<Longrightarrow> read M (PayloadOf this) = Inl UndefinedBehaviour"
  by (simp add: read_def Get_def)

lemma read_arguments_fault: "read_arguments M Args = Inl f \<Longrightarrow> f = UndefinedBehaviour"
proof (induction Args arbitrary: f)
  case Nil
  then show ?case by simp
next
  case (Cons a Args)
  show ?case
  proof (cases a)
    case (Ref r)
    with Cons show ?thesis
      by (auto split: sum.splits dest: read_fault)
  next
    case (Val x)
    with Cons show ?thesis
      by (auto split: sum.splits)
  qed
qed

lemma read_arguments_own_payload:
  "Ref (PayloadOf this) \<in> set Args \<Longrightarrow> m_Value (optionals M this) = NoObject \<Longrightarrow>
     read_arguments M Args = Inl UndefinedBehaviour"
proof (induction Args)
  case Nil
  then show ?case by simp
next
  case (Cons a Args)
  show ?case
  proof (cases "a = Ref (PayloadOf this)")
    case True
    then show ?thesis using Cons.prems(2) by (simp add: read_own_payload_destroyed)
  next
    case False
    then have "read_arguments M Args = Inl UndefinedBehaviour"
      using Cons by simp
    then show ?thesis
      by (cases a) (auto split: sum.splits dest: read_fault)
  qed
qed

lemma read_arguments_store_other:
  "Ref (PayloadOf this) \<notin> set Args \<Longrightarrow>
     read_arguments (store this obj M) Args = read_arguments M Args"
proof (induction Args)
  case Nil
  then show ?case by simp
next
  case (Cons a Args)
  show ?case
  proof (cases a)
    case (Ref r)
    then have "r \<noteq> PayloadOf this" using Cons.prems by auto
    then show ?thesis using Ref Cons by (simp add: read_store_other split: sum.splits)
  next
    case (Val x)
    then show ?thesis using Cons by (simp split: sum.splits)
  qed
qed

lemma optionals_leave_other:
  "r \<noteq> PayloadOf this \<Longrightarrow> optionals (leave r v M) this = optionals M this"
  by (cases r) (simp_all add: leave_def optionals_store)

lemma optionals_leave_arguments:
  "Ref (PayloadOf this) \<notin> set Args \<Longrightarrow>
     optionals (leave_arguments Args ws M) this = optionals M this"
  by (induction Args ws M rule: leave_arguments.induct)
     (auto simp: optionals_leave_other)

lemma read_after_leave:
  "read M r' = Inr u \<Longrightarrow> \<exists>u'. read (leave r v M) r' = Inr u'"
  by (cases r; cases r')
     (auto simp: read_def leave_def optionals_store store_def Get_def
       split: TypeCompatibleBytes.splits)

lemma read_arguments_after_leave:
  "read_arguments M Args = Inr vs \<Longrightarrow> \<exists>vs'. read_arguments (leave r v M) Args = Inr vs'"
proof (induction Args arbitrary: vs)
  case Nil
  then show ?case by simp
next
  case (Cons a Args)
  show ?case
  proof (cases a)
    case (Ref r')
    with Cons.prems obtain u ws where u: "read M r' = Inr u"
      and ws: "read_arguments M Args = Inr ws"
      by (auto split: sum.splits)
    from read_after_leave [OF u] obtain u' where "read (leave r v M) r' = Inr u'" by blast
    moreover from Cons.IH [OF ws] obtain ws' where
      "read_arguments (leave r v M) Args = Inr ws'" by blast
    ultimately show ?thesis using Ref by simp
  next
    case (Val x)
    with Cons.prems obtain ws where ws: "read_arguments M Args = Inr ws"
      by (auto split: sum.splits)
    from Cons.IH [OF ws] obtain ws' where
      "read_arguments (leave r v M) Args = Inr ws'" by blast
    then show ?thesis using Val by simp
  qed
qed

lemma leave_keeps_invariant:
  assumes "\<And>a. presence_invariant (optionals M a)" and "read M r = Inr u"
  shows "presence_invariant (optionals (leave r v M) a)"
proof (cases r)
  case (PayloadOf b)
  then have "m_Value (optionals M b) = Holds u"
    using assms(2) by (cases "m_Value (optionals M b)") (simp_all add: read_def Get_def)
  from invariant_refilled [OF assms(1) [of b] this] PayloadOf assms(1)
  show ?thesis by (simp add: leave_def optionals_store)
next
  case (ObjectAt k)
  then show ?thesis using assms(1) by (simp add: leave_def)
qed

lemma leave_arguments_keeps_invariant:
  "(\<And>a. presence_invariant (optionals M a)) \<Longrightarrow> read_arguments M Args = Inr vs \<Longrightarrow>
     presence_invariant (optionals (leave_arguments Args ws M) a)"
proof (induction Args arbitrary: M vs ws)
  case Nil
  then show ?case by simp
next
  case (Cons x Args)
  show ?case
  proof (cases ws)
    case Nil
    then show ?thesis using Cons.prems(1) by simp
  next
    case ws: (Cons w ws')
    show ?thesis
    proof (cases x)
      case (Val y)
      with Cons.prems(2) obtain us where us: "read_arguments M Args = Inr us"
        by (auto split: sum.splits)
      from Cons.IH [OF Cons.prems(1) us] show ?thesis using Val ws by simp
    next
      case (Ref r)
      with Cons.prems(2) obtain u us where u: "read M r = Inr u"
        and us: "read_arguments M Args = Inr us"
        by (auto split: sum.splits)
      show ?thesis
      proof (cases w)
        case (Inl v)
        have inv: "\<And>a. presence_invariant (optionals (leave r v M) a)"
          by (rule leave_keeps_invariant [OF Cons.prems(1) u])
        from read_arguments_after_leave [OF us] obtain us' where
          "read_arguments (leave r v M) Args = Inr us'" by blast
        from Cons.IH [OF inv this] show ?thesis using Ref ws Inl by simp
      next
        case (Inr n)
        from Cons.IH [OF Cons.prems(1) us] show ?thesis using Ref ws Inr by simp
      qed
    qed
  qed
qed

section \<open>The claims\<close>

text \<open>
  Claim C1 says that a container assignment from a distinct present container whose
  payload constructor raises leaves the destination empty, never flagged present
  without a live payload. The two container assignment operators write
  \<open>m_HasValue = Value.m_HasValue\<close> before the placement \<open>new\<close>, so the code does the
  opposite: when \<open>T\<close>'s copy (respectively move) constructor raises, the exception leaves
  the destination with \<open>m_HasValue\<close> true and no object in its storage, and its
  destructor then destroys a \<open>T\<close> that is not there.
\<close>

theorem container_assignment_throw_leaves_flag_set:
  assumes "Value \<noteq> this" and "presence_invariant (optionals M this)"
    and "optionals M Value = present v"
  shows "(copy_throws T v \<longrightarrow>
           (\<exists>M'. operator_assign_copy T this Value M = Throws M'
                 \<and> HasValue (optionals M' this) \<and> m_Value (optionals M' this) = NoObject
                 \<and> Optional_dtor (optionals M' this) = Inl UndefinedBehaviour))
       \<and> (move_throws T v \<longrightarrow>
           (\<exists>M'. operator_assign_move T this Value M = Throws M'
                 \<and> HasValue (optionals M' this) \<and> m_Value (optionals M' this) = NoObject
                 \<and> Optional_dtor (optionals M' this) = Inl UndefinedBehaviour))"
  using assms
  by (simp add: operator_assign_copy_def operator_assign_move_def Reset_at_invariant
      set_HasValue_def optionals_store present_def Get_def HasValue_def Optional_default_def
      Optional_dtor_def Reset_def leave_def Let_def)

theorem container_assignment_throw_leaves_flag_set_witness:
  "(1::nat) \<noteq> 0 \<and> presence_invariant (optionals mem0 0) \<and> optionals mem0 1 = present (- 1)
   \<and> copy_throws guarded_int (- 1)
   \<and> (\<exists>M'. operator_assign_copy guarded_int 0 1 mem0 = Throws M'
         \<and> HasValue (optionals M' 0) \<and> m_Value (optionals M' 0) = NoObject
         \<and> Optional_dtor (optionals M' 0) = Inl UndefinedBehaviour)
   \<and> move_throws guarded_int (- 1)
   \<and> (\<exists>M'. operator_assign_move guarded_int 0 1 mem0 = Throws M'
         \<and> HasValue (optionals M' 0) \<and> m_Value (optionals M' 0) = NoObject
         \<and> Optional_dtor (optionals M' 0) = Inl UndefinedBehaviour)"
  using container_assignment_throw_leaves_flag_set [of 1 0 mem0 "- 1" guarded_int]
  by (simp add: mem0_def invariant_present guarded_int_def)

text \<open>
  Claim C2, as stated, makes \<open>a != b\<close> the negation of \<open>a == b\<close> for every payload type.
  When both containers are present the code returns \<open>T\<close>'s own \<open>operator!=\<close> on the
  payloads, so the two results disagree as soon as \<open>T\<close>'s \<open>!=\<close> is not the negation of
  \<open>T\<close>'s \<open>==\<close> there: with the parity comparison as \<open>!=\<close>, containers holding 1 and 3
  are neither equal nor unequal.
\<close>

theorem operator_neq_differs_from_negated_operator_eq:
  "operator_neq parity_int (present 1) (present 3)
     \<noteq> negated (operator_eq parity_int (present 1) (present 3))"
  by (simp add: operator_neq_def operator_eq_def negated_def parity_int_def guarded_int_def
      present_def Get_def)

text \<open>
  Claim C2, amended: for every pair of containers, in every combination of empty and
  present, \<open>a != b\<close> is the negation of \<open>a == b\<close>, provided that \<open>T\<close>'s \<open>operator!=\<close> is the
  negation of \<open>T\<close>'s \<open>operator==\<close> on the two payloads when both containers hold one.
\<close>

theorem operator_neq_negates_operator_eq:
  assumes "\<And>x y. m_Value a = Holds x \<Longrightarrow> m_Value b = Holds y \<Longrightarrow>
             not_equals T x y = (\<not> equals T x y)"
  shows "operator_neq T a b = negated (operator_eq T a b)"
  using assms
  by (cases "m_Value a"; cases "m_Value b")
     (simp_all add: operator_neq_def operator_eq_def negated_def Get_def)

theorem operator_neq_negates_operator_eq_witness:
  "operator_neq guarded_int (present 1) (present 3)
     = negated (operator_eq guarded_int (present 1) (present 3))
   \<and> operator_neq guarded_int (present 1) (present 3) = Inr True
   \<and> operator_neq guarded_int Optional_default (present 3)
     = negated (operator_eq guarded_int Optional_default (present 3))
   \<and> operator_neq guarded_int Optional_default Optional_default = Inr False"
  using operator_neq_negates_operator_eq [of "present 1" "present 3" guarded_int]
    operator_neq_negates_operator_eq [of Optional_default "present 3" guarded_int]
    operator_neq_negates_operator_eq [of Optional_default Optional_default guarded_int]
  by (simp add: guarded_int_def operator_eq_def negated_def present_def Get_def
      Optional_default_def)

text \<open>
  Claim C3: moving from a present container, by the move constructor or by move
  assignment, leaves the source's presence flag true, whether the payload's move
  constructor returns or raises; its storage then holds the moved-from payload. (In the
  assignment the destination must satisfy the presence invariant, or \<open>Reset\<close> has no
  defined result.)
\<close>

theorem move_keeps_source_present:
  assumes "HasValue (optionals M Value)" and "m_Value (optionals M Value) = Holds v"
    and "presence_invariant (optionals M this)"
  shows "(\<exists>Value'. (Optional_move T (optionals M Value) = Throws Value'
                     \<or> (\<exists>new. Optional_move T (optionals M Value) = Returns (new, Value')))
                  \<and> HasValue Value' \<and> m_Value Value' = Holds (moved_from T v))
       \<and> (\<exists>M'. (operator_assign_move T this Value M = Returns M'
                   \<or> operator_assign_move T this Value M = Throws M')
               \<and> HasValue (optionals M' Value)
               \<and> (Value \<noteq> this \<longrightarrow> m_Value (optionals M' Value) = Holds (moved_from T v)))"
proof -
  let ?src = "optionals M Value"
  let ?src' = "?src\<lparr>m_Value := Holds (moved_from T v)\<rparr>"
  have flag: "m_HasValue ?src" using assms(1) by (simp add: HasValue_def)
  have ctor: "Optional_move T ?src =
      (if move_throws T v then Throws ?src'
       else Returns (\<lparr>m_Value = Holds v, m_HasValue = True\<rparr>, ?src'))"
    using flag assms(2) by (simp add: Optional_move_def Get_def)
  have left: "HasValue ?src' \<and> m_Value ?src' = Holds (moved_from T v)"
    using flag by (simp add: HasValue_def)
  have first: "\<exists>Value'. (Optional_move T ?src = Throws Value'
                     \<or> (\<exists>new. Optional_move T ?src = Returns (new, Value')))
                  \<and> HasValue Value' \<and> m_Value Value' = Holds (moved_from T v)"
    using ctor left by (cases "move_throws T v") auto
  have second: "\<exists>M'. (operator_assign_move T this Value M = Returns M'
                   \<or> operator_assign_move T this Value M = Throws M')
               \<and> HasValue (optionals M' Value)
               \<and> (Value \<noteq> this \<longrightarrow> m_Value (optionals M' Value) = Holds (moved_from T v))"
  proof (cases "Value = this")
    case True
    then show ?thesis using assms(1) by (simp add: operator_assign_move_def)
  next
    case False
    then show ?thesis
      using flag assms(2,3)
      by (cases "move_throws T v")
         (simp_all add: operator_assign_move_def Reset_at_invariant set_HasValue_def
           optionals_store Get_def HasValue_def leave_def placement_new_def Let_def)
  qed
  from first second show ?thesis by blast
qed

theorem move_keeps_source_present_witness:
  "HasValue (optionals mem0 0) \<and> m_Value (optionals mem0 0) = Holds 5
   \<and> presence_invariant (optionals mem0 2)
   \<and> (\<exists>Value'. (Optional_move guarded_int (optionals mem0 0) = Throws Value'
                     \<or> (\<exists>new. Optional_move guarded_int (optionals mem0 0) = Returns (new, Value')))
                  \<and> HasValue Value' \<and> m_Value Value' = Holds (moved_from guarded_int 5))
   \<and> (\<exists>M'. (operator_assign_move guarded_int 2 0 mem0 = Returns M'
                   \<or> operator_assign_move guarded_int 2 0 mem0 = Throws M')
               \<and> HasValue (optionals M' 0)
               \<and> m_Value (optionals M' 0) = Holds (moved_from guarded_int 5))"
  using move_keeps_source_present [of mem0 0 5 2 guarded_int]
  by (simp add: mem0_def present_def HasValue_def presence_invariant_def Optional_default_def)

text \<open>
  Claim C4: a container constructed from a value \<open>v\<close>, by \<open>Optional(const T&)\<close> or by
  \<open>Optional(T&&)\<close>, has \<open>HasValue()\<close> true and \<open>GetValue()\<close> gives \<open>v\<close>, the value the
  argument had before the call; the constructor returns whenever the payload's
  constructor does not raise.
\<close>

theorem value_constructors_hold_the_value:
  "(\<not> copy_throws T v \<longrightarrow>
      (\<exists>a. Optional_value T v = Returns a \<and> HasValue a \<and> GetValue a = Inr v))
   \<and> (\<not> move_throws T v \<longrightarrow>
      (\<exists>a. Optional_rvalue T v = Returns (a, moved_from T v) \<and> HasValue a
            \<and> GetValue a = Inr v))"
  by (simp add: Optional_value_def Optional_rvalue_def HasValue_def GetValue_def Get_def)

theorem value_constructors_hold_the_value_witness:
  "\<not> copy_throws guarded_int 7
   \<and> (\<exists>a. Optional_value guarded_int 7 = Returns a \<and> HasValue a \<and> GetValue a = Inr 7)
   \<and> \<not> move_throws guarded_int 7
   \<and> (\<exists>a. Optional_rvalue guarded_int 7 = Returns (a, moved_from guarded_int 7) \<and> HasValue a
         \<and> GetValue a = Inr 7)"
  using value_constructors_hold_the_value [of guarded_int 7]
  by (simp add: guarded_int_def)

text \<open>
  Claim C5: two empty containers are equal; an empty and a present container are not;
  two present containers are equal exactly when \<open>T\<close>'s own \<open>operator==\<close> says so of
  their payloads.
\<close>

theorem operator_eq_by_cases:
  "(\<not> HasValue a \<and> \<not> HasValue b \<longrightarrow> operator_eq T a b = Inr True)
   \<and> (HasValue a \<noteq> HasValue b \<longrightarrow> operator_eq T a b = Inr False)
   \<and> (HasValue a \<and> HasValue b \<and> m_Value a = Holds x \<and> m_Value b = Holds y \<longrightarrow>
        operator_eq T a b = Inr (equals T x y))"
  by (simp add: operator_eq_def HasValue_def Get_def)

theorem operator_eq_by_cases_witness:
  "\<not> HasValue (Optional_default :: int Optional)
   \<and> operator_eq guarded_int Optional_default Optional_default = Inr True
   \<and> HasValue (Optional_default :: int Optional) \<noteq> HasValue (present (3::int))
   \<and> operator_eq guarded_int Optional_default (present 3) = Inr False
   \<and> HasValue (present (3::int)) \<and> HasValue (present (4::int))
   \<and> operator_eq guarded_int (present 3) (present 4) = Inr (equals guarded_int 3 4)
   \<and> operator_eq guarded_int (present 3) (present 3) = Inr True"
  using operator_eq_by_cases [of Optional_default Optional_default guarded_int 0 0]
    operator_eq_by_cases [of Optional_default "present 3" guarded_int 0 0]
    operator_eq_by_cases [of "present 3" "present 4" guarded_int 3 4]
    operator_eq_by_cases [of "present 3" "present 3" guarded_int 3 3]
  by (simp add: HasValue_def Optional_default_def present_def guarded_int_def)

text \<open>
  Claim C6, as stated, covers every argument list. \<open>Emplace\<close> takes references and
  compares no addresses, so an argument bound to the container's own payload designates,
  when \<open>T\<close>'s constructor reads it, the object that \<open>Reset()\<close> has just destroyed. With
  the container at address 0 holding 5 and its own payload as the argument,
  \<open>T(args...)\<close> is 5 before the call; the call neither leaves the container holding 5
  nor raises and leaves it empty: the constructor uses a destroyed object.
\<close>

theorem Emplace_from_own_payload_counterexample:
  "HasValue (optionals mem0 0) \<and> GetValue (optionals mem0 0) = Inr 5
   \<and> read_arguments mem0 [Ref (PayloadOf 0) :: int argument] = Inr [Inl 5]
   \<and> fst (construct guarded_int [Inl 5]) = Some 5
   \<and> Emplace guarded_int 0 [Ref (PayloadOf 0)] mem0 = Fault UndefinedBehaviour"
  by (simp add: mem0_def present_def HasValue_def GetValue_def Get_def read_def guarded_int_def
      amount_def Emplace_def Reset_at_def Reset_def optionals_store)

text \<open>
  Claim C6, amended: on any container that satisfies the presence invariant, empty or
  present, and for every argument list whose arguments designate live objects, none of
  them the container's own payload, \<open>Emplace\<close> destroys the old payload first and then
  constructs from the arguments. When \<open>T(args...)\<close> returns \<open>v\<close> the container is present
  and \<open>GetValue()\<close> gives \<open>v\<close>; when it raises, the exception leaves the container empty,
  the old payload gone.
\<close>

theorem Emplace_destroys_then_constructs:
  assumes "presence_invariant (optionals M this)"
    and "Ref (PayloadOf this) \<notin> set Args"
    and "read_arguments M Args = Inr vs"
  shows "(fst (construct T vs) = Some v \<longrightarrow>
            (\<exists>M'. Emplace T this Args M = Returns M' \<and> HasValue (optionals M' this)
                  \<and> GetValue (optionals M' this) = Inr v))
       \<and> (fst (construct T vs) = None \<longrightarrow>
            (\<exists>M'. Emplace T this Args M = Throws M' \<and> \<not> HasValue (optionals M' this)
                  \<and> m_Value (optionals M' this) = NoObject))"
  using assms
  by (simp add: Emplace_def Reset_at_invariant read_arguments_store_other Let_def
      set_HasValue_def placement_new_def optionals_store optionals_leave_arguments
      HasValue_def GetValue_def Get_def Optional_default_def)

theorem Emplace_destroys_then_constructs_witness:
  "presence_invariant (optionals mem0 0) \<and> Ref (PayloadOf 0) \<notin> set [Val 7 :: int argument]
   \<and> read_arguments mem0 [Val 7 :: int argument] = Inr [Inr 7]
   \<and> fst (construct guarded_int [Inr 7]) = Some 7
   \<and> (\<exists>M'. Emplace guarded_int 0 [Val 7] mem0 = Returns M' \<and> HasValue (optionals M' 0)
         \<and> GetValue (optionals M' 0) = Inr 7)
   \<and> read_arguments mem0 [Val (- 1) :: int argument] = Inr [Inr (- 1)]
   \<and> fst (construct guarded_int [Inr (- 1)]) = None
   \<and> (\<exists>M'. Emplace guarded_int 0 [Val (- 1)] mem0 = Throws M' \<and> \<not> HasValue (optionals M' 0)
         \<and> m_Value (optionals M' 0) = NoObject)
   \<and> presence_invariant (optionals mem0 2)
   \<and> read_arguments mem0 [Ref (PayloadOf 0) :: int argument, Val 2] = Inr [Inl 5, Inr 2]
   \<and> fst (construct guarded_int [Inl 5, Inr 2]) = Some 7
   \<and> (\<exists>M'. Emplace guarded_int 2 [Ref (PayloadOf 0), Val 2] mem0 = Returns M'
         \<and> HasValue (optionals M' 2) \<and> GetValue (optionals M' 2) = Inr 7)"
proof -
  have i0: "presence_invariant (optionals mem0 0)"
    by (simp add: mem0_def invariant_present)
  have i2: "presence_invariant (optionals mem0 2)"
    by (simp add: mem0_def invariant_default)
  have n1: "Ref (PayloadOf 0) \<notin> set [Val 7 :: int argument]" by simp
  have n2: "Ref (PayloadOf 0) \<notin> set [Val (- 1) :: int argument]" by simp
  have n3: "Ref (PayloadOf 2) \<notin> set [Ref (PayloadOf 0) :: int argument, Val 2]" by simp
  have r1: "read_arguments mem0 [Val 7 :: int argument] = Inr [Inr 7]" by simp
  have r2: "read_arguments mem0 [Val (- 1) :: int argument] = Inr [Inr (- 1)]" by simp
  have r3: "read_arguments mem0 [Ref (PayloadOf 0) :: int argument, Val 2] = Inr [Inl 5, Inr 2]"
    by (simp add: read_def mem0_def present_def Get_def)
  have c1: "fst (construct guarded_int [Inr 7]) = Some 7"
    by (simp add: guarded_int_def amount_def)
  have c2: "fst (construct guarded_int [Inr (- 1)]) = None"
    by (simp add: guarded_int_def amount_def)
  have c3: "fst (construct guarded_int [Inl 5, Inr 2]) = Some 7"
    by (simp add: guarded_int_def amount_def)
  from Emplace_destroys_then_constructs [OF i0 n1 r1, of guarded_int 7]
    Emplace_destroys_then_constructs [OF i0 n2 r2, of guarded_int 0]
    Emplace_destroys_then_constructs [OF i2 n3 r3, of guarded_int 7]
    i0 i2 n1 r1 r2 r3 c1 c2 c3
  show ?thesis by simp
qed

text \<open>
  Claim C7: on any container that satisfies the presence invariant, \<open>Reset\<close> returns
  (it has no failing outcome), and the container is empty afterwards. It destroys the
  payload exactly when one is present: a present container loses its payload and its
  flag, an empty one is returned as it was. A second \<open>Reset\<close> changes nothing more.
\<close>

theorem Reset_empties_and_is_idempotent:
  assumes "presence_invariant a"
  shows "\<exists>a'. Reset a = Inr a' \<and> \<not> HasValue a' \<and> m_Value a' = NoObject
            \<and> a' = (if HasValue a then a\<lparr>m_Value := NoObject, m_HasValue := False\<rparr> else a)
            \<and> Reset a' = Inr a'"
  using assms by (auto dest!: invariant_cases simp: Reset_present Reset_empty HasValue_def)

theorem Reset_empties_and_is_idempotent_witness:
  "presence_invariant (present (5::int))
   \<and> (\<exists>a'. Reset (present (5::int)) = Inr a' \<and> \<not> HasValue a' \<and> m_Value a' = NoObject
         \<and> a' = (if HasValue (present (5::int))
                 then (present 5)\<lparr>m_Value := NoObject, m_HasValue := False\<rparr> else present 5)
         \<and> Reset a' = Inr a')
   \<and> presence_invariant (Optional_default :: int Optional)
   \<and> Reset (Optional_default :: int Optional) = Inr Optional_default"
  using Reset_empties_and_is_idempotent [of "present (5::int)"]
    Reset_empties_and_is_idempotent [of "Optional_default :: int Optional"]
  by (simp add: presence_invariant_def present_def Optional_default_def HasValue_def)

text \<open>
  Claim C8: self-assignment is decided by comparing addresses and does nothing. Container
  copy and move assignment with the container itself as source, and value copy and move
  assignment with a reference to the container's own payload as source, return with the
  whole memory as it was: flag and payload are unchanged, nothing is destroyed, no
  constructor of \<open>T\<close> runs (the call returns even where that constructor would raise).
  Equality of the payloads does not make an assignment a self-assignment: from an
  object of equal value at another address the container is reset first, as the
  exception of a raising copy constructor shows.
\<close>

theorem self_assignment_is_a_noop:
  "operator_assign_copy T a a M = Returns M
   \<and> operator_assign_move T a a M = Returns M
   \<and> operator_assign_value T a (PayloadOf a) M = Returns M
   \<and> operator_assign_rvalue T a (PayloadOf a) M = Returns M
   \<and> (optionals M a = present v \<and> objects M k = v \<and> copy_throws T v \<longrightarrow>
        operator_assign_value T a (ObjectAt k) M = Throws (store a Optional_default M))"
  by (simp add: operator_assign_copy_def operator_assign_move_def operator_assign_value_def
      operator_assign_rvalue_def Reset_at_invariant invariant_present read_def objects_store)

theorem self_assignment_is_a_noop_witness:
  "operator_assign_copy guarded_int 1 1 mem0 = Returns mem0
   \<and> operator_assign_move guarded_int 1 1 mem0 = Returns mem0
   \<and> operator_assign_value guarded_int 1 (PayloadOf 1) mem0 = Returns mem0
   \<and> operator_assign_rvalue guarded_int 1 (PayloadOf 1) mem0 = Returns mem0
   \<and> HasValue (optionals mem0 1) \<and> GetValue (optionals mem0 1) = Inr (- 1)
   \<and> optionals mem0 1 = present (- 1) \<and> objects mem0 0 = - 1 \<and> copy_throws guarded_int (- 1)
   \<and> operator_assign_value guarded_int 1 (ObjectAt 0) mem0
       = Throws (store 1 Optional_default mem0)"
  using self_assignment_is_a_noop [of guarded_int 1 mem0 "- 1" 0]
  by (simp add: mem0_def guarded_int_def HasValue_def GetValue_def Get_def present_def)

text \<open>
  Claim C9: \<open>Get(d)\<close> returns the reference to the payload when the container is present,
  so reading it gives the payload, and returns the reference \<open>d\<close> itself when the
  container is empty, whatever the value of \<open>d\<close>. The call yields a reference and no new
  memory: flag and payload are as before.
\<close>

theorem Get_payload_or_default:
  "(HasValue (optionals M this) \<and> m_Value (optionals M this) = Holds v \<longrightarrow>
      Optional_Get this d M = PayloadOf this \<and> read M (Optional_Get this d M) = Inr v)
   \<and> (\<not> HasValue (optionals M this) \<longrightarrow>
      Optional_Get this d M = d \<and> read M (Optional_Get this d M) = read M d)"
  by (simp add: Optional_Get_def read_def Get_def)

theorem Get_payload_or_default_witness:
  "HasValue (optionals mem0 0) \<and> m_Value (optionals mem0 0) = Holds 5
   \<and> Optional_Get 0 (ObjectAt 6) mem0 = PayloadOf 0
   \<and> read mem0 (Optional_Get 0 (ObjectAt 6) mem0) = Inr 5
   \<and> \<not> HasValue (optionals mem0 2)
   \<and> Optional_Get 2 (ObjectAt 43) mem0 = ObjectAt 43
   \<and> read mem0 (Optional_Get 2 (ObjectAt 43) mem0) = Inr 42"
  using Get_payload_or_default [of mem0 0 5 "ObjectAt 6"]
    Get_payload_or_default [of mem0 2 0 "ObjectAt 43"]
  by (simp add: mem0_def HasValue_def present_def Optional_default_def read_def
      Optional_Get_def Get_def)

text \<open>
  Claim C10: when at least one operand is empty, \<open>==\<close> and \<open>!=\<close> return a result that is
  a function of the two presence flags alone; neither reaches the statement that reads
  the payloads, so no fault is possible and the contents of both storages are
  irrelevant.
\<close>

theorem comparison_with_an_empty_reads_no_payload:
  assumes "\<not> (HasValue lhs \<and> HasValue rhs)"
  shows "operator_eq T lhs rhs = Inr (HasValue lhs = HasValue rhs)
       \<and> operator_neq T lhs rhs = Inr (HasValue lhs \<noteq> HasValue rhs)
       \<and> operator_eq T (lhs\<lparr>m_Value := s1\<rparr>) (rhs\<lparr>m_Value := s2\<rparr>) = operator_eq T lhs rhs
       \<and> operator_neq T (lhs\<lparr>m_Value := s1\<rparr>) (rhs\<lparr>m_Value := s2\<rparr>) = operator_neq T lhs rhs"
  using assms by (auto simp: operator_eq_def operator_neq_def HasValue_def)

theorem comparison_with_an_empty_reads_no_payload_witness:
  "\<not> (HasValue (Optional_default :: int Optional) \<and> HasValue (present (5::int)))
   \<and> operator_eq guarded_int Optional_default (present 5) = Inr False
   \<and> operator_neq guarded_int Optional_default (present 5) = Inr True
   \<and> operator_eq guarded_int (Optional_default\<lparr>m_Value := Holds 9\<rparr>)
        ((present 5)\<lparr>m_Value := NoObject\<rparr>) = operator_eq guarded_int Optional_default (present 5)
   \<and> operator_neq guarded_int (Optional_default\<lparr>m_Value := Holds 9\<rparr>)
        ((present 5)\<lparr>m_Value := NoObject\<rparr>) = operator_neq guarded_int Optional_default (present 5)"
  using comparison_with_an_empty_reads_no_payload
    [of Optional_default "present 5" guarded_int "Holds 9" NoObject]
  by (simp add: HasValue_def Optional_default_def present_def)

section \<open>Further properties\<close>

text \<open>
  The value assignment operators set the flag after the placement \<open>new\<close>: when the
  payload's constructor raises there, the destination is left empty, flag false and
  no object in its storage.
\<close>

theorem value_assignment_throw_leaves_empty:
  assumes "Value \<noteq> PayloadOf this" and "presence_invariant (optionals M this)"
    and "read M Value = Inr v"
  shows "(copy_throws T v \<longrightarrow>
           (\<exists>M'. operator_assign_value T this Value M = Throws M'
                 \<and> optionals M' this = Optional_default))
       \<and> (move_throws T v \<longrightarrow>
           (\<exists>M'. operator_assign_rvalue T this Value M = Throws M'
                 \<and> optionals M' this = Optional_default))"
  using assms
  by (cases Value)
     (auto simp: operator_assign_value_def operator_assign_rvalue_def Reset_at_invariant
       read_store_other optionals_store leave_def Let_def)

theorem value_assignment_throw_leaves_empty_witness:
  "ObjectAt 0 \<noteq> PayloadOf 0 \<and> presence_invariant (optionals mem0 0)
   \<and> read mem0 (ObjectAt 0) = Inr (- 1)
   \<and> copy_throws guarded_int (- 1)
   \<and> (\<exists>M'. operator_assign_value guarded_int 0 (ObjectAt 0) mem0 = Throws M'
         \<and> optionals M' 0 = Optional_default)
   \<and> move_throws guarded_int (- 1)
   \<and> (\<exists>M'. operator_assign_rvalue guarded_int 0 (ObjectAt 0) mem0 = Throws M'
         \<and> optionals M' 0 = Optional_default)"
  using value_assignment_throw_leaves_empty [of "ObjectAt 0" 0 mem0 "- 1" guarded_int]
  by (simp add: mem0_def invariant_present guarded_int_def read_def)

text \<open>
  Where the payload's copy constructor does not raise, container copy assignment from
  another container leaves the destination equal to the source, and everything else
  as it was.
\<close>

theorem copy_assignment_copies:
  assumes "Value \<noteq> this" and "presence_invariant (optionals M this)"
    and "presence_invariant (optionals M Value)"
    and "\<And>v. m_Value (optionals M Value) = Holds v \<Longrightarrow> \<not> copy_throws T v"
  shows "operator_assign_copy T this Value M = Returns (store this (optionals M Value) M)"
proof -
  from invariant_cases [OF assms(3)] show ?thesis
  proof
    assume e: "\<not> m_HasValue (optionals M Value) \<and> m_Value (optionals M Value) = NoObject"
    then have "optionals M Value = Optional_default"
      by (cases "optionals M Value") (simp add: Optional_default_def)
    then show ?thesis
      using assms(1,2)
      by (simp add: operator_assign_copy_def Reset_at_invariant set_HasValue_def
          optionals_store store_store Optional_default_def)
  next
    assume "m_HasValue (optionals M Value) \<and> (\<exists>v. m_Value (optionals M Value) = Holds v)"
    then obtain v where f: "m_HasValue (optionals M Value)"
      and h: "m_Value (optionals M Value) = Holds v" by blast
    then have p: "optionals M Value = \<lparr>m_Value = Holds v, m_HasValue = True\<rparr>"
      by (cases "optionals M Value") simp
    show ?thesis
      using assms(1,2) assms(4) [OF h] f h p
      by (simp add: operator_assign_copy_def Reset_at_invariant set_HasValue_def
          optionals_store store_store Optional_default_def placement_new_def Get_def)
  qed
qed

theorem copy_assignment_copies_witness:
  "operator_assign_copy guarded_int 2 0 mem0 = Returns (store 2 (optionals mem0 0) mem0)
   \<and> optionals (store 2 (optionals mem0 0) mem0) 2 = present 5
   \<and> optionals (store 2 (optionals mem0 0) mem0) 0 = present 5"
proof -
  have h1: "(0::nat) \<noteq> 2" by simp
  have h2: "presence_invariant (optionals mem0 2)"
    by (simp add: mem0_def invariant_default)
  have h3: "presence_invariant (optionals mem0 0)"
    by (simp add: mem0_def invariant_present)
  have h4: "\<And>v. m_Value (optionals mem0 0) = Holds v \<Longrightarrow> \<not> copy_throws guarded_int v"
    by (simp add: mem0_def present_def guarded_int_def)
  show ?thesis
    using copy_assignment_copies [OF h1 h2 h3 h4]
    by (simp add: optionals_store) (simp add: mem0_def)
qed

text \<open>
  The presence invariant, kept by every assignment that returns, and by the value
  assignments also when they raise.
\<close>

lemma copy_keeps:
  assumes inv: "\<And>a. presence_invariant (optionals M a)"
    and ret: "operator_assign_copy T this Value M = Returns M'"
  shows "presence_invariant (optionals M' a)"
proof (cases "Value = this")
  case True
  then show ?thesis using inv ret by (simp add: operator_assign_copy_def)
next
  case False
  have r: "Reset_at this M = Inr (store this Optional_default M)"
    by (rule Reset_at_invariant [OF inv])
  from invariant_cases [OF inv [of Value]] show ?thesis
  proof
    assume "\<not> m_HasValue (optionals M Value) \<and> m_Value (optionals M Value) = NoObject"
    then have "M' = store this Optional_default M"
      using ret False
      by (simp add: operator_assign_copy_def r set_HasValue_def optionals_store store_store
          Optional_default_def Let_def)
    then show ?thesis using inv by (simp add: optionals_store invariant_default)
  next
    assume "m_HasValue (optionals M Value) \<and> (\<exists>v. m_Value (optionals M Value) = Holds v)"
    then obtain v where f: "m_HasValue (optionals M Value)"
      and h: "m_Value (optionals M Value) = Holds v" by blast
    then have "M' = store this (present v) M"
      using ret False
      by (simp add: operator_assign_copy_def r set_HasValue_def optionals_store store_store
          Optional_default_def placement_new_def Get_def present_def Let_def split: if_splits)
    then show ?thesis using inv by (simp add: optionals_store invariant_present)
  qed
qed

lemma move_keeps:
  assumes inv: "\<And>a. presence_invariant (optionals M a)"
    and ret: "operator_assign_move T this Value M = Returns M'"
  shows "presence_invariant (optionals M' a)"
proof (cases "Value = this")
  case True
  then show ?thesis using inv ret by (simp add: operator_assign_move_def)
next
  case False
  have r: "Reset_at this M = Inr (store this Optional_default M)"
    by (rule Reset_at_invariant [OF inv])
  from invariant_cases [OF inv [of Value]] show ?thesis
  proof
    assume "\<not> m_HasValue (optionals M Value) \<and> m_Value (optionals M Value) = NoObject"
    then have "M' = store this Optional_default M"
      using ret False
      by (simp add: operator_assign_move_def r set_HasValue_def optionals_store store_store
          Optional_default_def Let_def)
    then show ?thesis using inv by (simp add: optionals_store invariant_default)
  next
    assume "m_HasValue (optionals M Value) \<and> (\<exists>v. m_Value (optionals M Value) = Holds v)"
    then obtain v where f: "m_HasValue (optionals M Value)"
      and h: "m_Value (optionals M Value) = Holds v" by blast
    then have "M' = store this (present v)
                 (store Value ((optionals M Value)\<lparr>m_Value := Holds (moved_from T v)\<rparr>)
                    (store this (Optional_default\<lparr>m_HasValue := True\<rparr>) M))"
      using ret False
      by (simp add: operator_assign_move_def r set_HasValue_def optionals_store store_store
          Optional_default_def placement_new_def Get_def present_def Let_def leave_def
          split: if_splits)
    then show ?thesis
      using inv invariant_refilled [OF inv [of Value] h]
      by (simp add: optionals_store invariant_present)
  qed
qed

lemma value_keeps:
  assumes inv: "\<And>a. presence_invariant (optionals M a)"
    and ret: "operator_assign_value T this r M = Returns M' \<or> operator_assign_value T this r M = Throws M'"
  shows "presence_invariant (optionals M' a)"
proof (cases "r = PayloadOf this")
  case True
  then show ?thesis using inv ret by (simp add: operator_assign_value_def)
next
  case False
  have r: "Reset_at this M = Inr (store this Optional_default M)"
    by (rule Reset_at_invariant [OF inv])
  show ?thesis
  proof (cases "read M r")
    case (Inl f)
    then show ?thesis using ret False
      by (simp add: operator_assign_value_def r read_store_other)
  next
    case (Inr v)
    then have "M' = store this Optional_default M \<or> M' = store this (present v) M"
      using ret False
      by (auto simp: operator_assign_value_def r read_store_other set_HasValue_def
          placement_new_def optionals_store store_store Optional_default_def present_def
          split: if_splits)
    then show ?thesis using inv
      by (auto simp: optionals_store invariant_default invariant_present)
  qed
qed

lemma rvalue_keeps:
  assumes inv: "\<And>a. presence_invariant (optionals M a)"
    and ret: "operator_assign_rvalue T this r M = Returns M' \<or> operator_assign_rvalue T this r M = Throws M'"
  shows "presence_invariant (optionals M' a)"
proof (cases "r = PayloadOf this")
  case True
  then show ?thesis using inv ret by (simp add: operator_assign_rvalue_def)
next
  case False
  have r: "Reset_at this M = Inr (store this Optional_default M)"
    by (rule Reset_at_invariant [OF inv])
  let ?M1 = "store this Optional_default M"
  have inv1: "\<And>a. presence_invariant (optionals ?M1 a)"
    using inv by (simp add: optionals_store invariant_default)
  show ?thesis
  proof (cases "read M r")
    case (Inl f)
    then show ?thesis using ret False
      by (simp add: operator_assign_rvalue_def r read_store_other)
  next
    case (Inr v)
    let ?M2 = "leave r (moved_from T v) ?M1"
    have inv2: "\<And>a. presence_invariant (optionals ?M2 a)"
    proof (cases r)
      case (PayloadOf b)
      then have "m_Value (optionals ?M1 b) = Holds v"
        using Inr False by (cases "m_Value (optionals M b)")
          (simp_all add: read_def Get_def optionals_store)
      from invariant_refilled [OF inv1 [of b] this] PayloadOf inv1
      show "\<And>a. presence_invariant (optionals ?M2 a)"
        by (simp add: leave_def optionals_store)
    next
      case (ObjectAt k)
      then show "\<And>a. presence_invariant (optionals ?M2 a)"
        using inv1 by (simp add: leave_def)
    qed
    have "M' = ?M2 \<or> M' = store this ((optionals ?M2 this)\<lparr>m_Value := Holds v, m_HasValue := True\<rparr>) ?M2"
      using ret False Inr
      by (auto simp: operator_assign_rvalue_def r read_store_other set_HasValue_def
          placement_new_def optionals_store store_store Let_def
          split: if_splits)
    then show ?thesis using inv2
      by (auto simp: optionals_store invariant_flagged)
  qed
qed


theorem assignments_keep_the_invariant:
  assumes "\<forall>a. presence_invariant (optionals M a)"
  shows "(operator_assign_copy T this Value M = Returns M' \<longrightarrow>
            (\<forall>a. presence_invariant (optionals M' a)))
       \<and> (operator_assign_move T this Value M = Returns M' \<longrightarrow>
            (\<forall>a. presence_invariant (optionals M' a)))
       \<and> (operator_assign_value T this r M = Returns M'
            \<or> operator_assign_value T this r M = Throws M' \<longrightarrow>
            (\<forall>a. presence_invariant (optionals M' a)))
       \<and> (operator_assign_rvalue T this r M = Returns M'
            \<or> operator_assign_rvalue T this r M = Throws M' \<longrightarrow>
            (\<forall>a. presence_invariant (optionals M' a)))"
proof -
  have inv: "\<And>a. presence_invariant (optionals M a)" using assms by simp
  show ?thesis
    using copy_keeps [OF inv] move_keeps [OF inv] value_keeps [OF inv] rvalue_keeps [OF inv]
    by blast
qed

theorem assignments_keep_the_invariant_witness:
  "(\<forall>a. presence_invariant (optionals mem0 a))
   \<and> operator_assign_copy guarded_int 2 0 mem0 = Returns (store 2 (present 5) mem0)
   \<and> (\<forall>a. presence_invariant (optionals (store 2 (present 5) mem0) a))
   \<and> operator_assign_rvalue guarded_int 0 (PayloadOf 1) mem0
       = Throws (store 1 (present 0) (store 0 Optional_default mem0))
   \<and> (\<forall>a. presence_invariant (optionals (store 1 (present 0) (store 0 Optional_default mem0)) a))"
proof -
  have h: "\<forall>a. presence_invariant (optionals mem0 a)"
    by (simp add: mem0_def invariant_present invariant_default)
  have r0: "Reset_at 0 mem0 = Inr (store 0 Optional_default mem0)"
    by (rule Reset_at_invariant) (simp add: h)
  have r2: "Reset_at 2 mem0 = Inr (store 2 Optional_default mem0)"
    by (rule Reset_at_invariant) (simp add: h)
  have e1: "operator_assign_copy guarded_int 2 0 mem0 = Returns (store 2 (present 5) mem0)"
    by (simp add: operator_assign_copy_def r2 set_HasValue_def placement_new_def
        optionals_store store_store Get_def Let_def guarded_int_def)
       (simp add: mem0_def present_def Optional_default_def Get_def placement_new_def
         store_def)
  have e2: "operator_assign_rvalue guarded_int 0 (PayloadOf 1) mem0
       = Throws (store 1 (present 0) (store 0 Optional_default mem0))"
    by (simp add: operator_assign_rvalue_def r0 read_def optionals_store Let_def)
       (simp add: mem0_def present_def Get_def guarded_int_def leave_def store_def)
  from assignments_keep_the_invariant [OF h, of guarded_int 2 0 "store 2 (present 5) mem0"
      "PayloadOf 1"]
    assignments_keep_the_invariant [OF h, of guarded_int 0 0
      "store 1 (present 0) (store 0 Optional_default mem0)" "PayloadOf 1"]
    h e1 e2
  show ?thesis by simp
qed

text \<open>
  Whenever an argument of \<open>Emplace\<close> is bound to the container's own payload, the
  constructor of \<open>T\<close> finds no object there.
\<close>

lemma Emplace_from_own_payload_faults:
  assumes "presence_invariant (optionals M this)" and "Ref (PayloadOf this) \<in> set Args"
  shows "Emplace T this Args M = Fault UndefinedBehaviour"
proof -
  have "m_Value (optionals (store this Optional_default M) this) = NoObject"
    by (simp add: optionals_store Optional_default_def)
  from read_arguments_own_payload [OF assms(2) this] show ?thesis
    using assms(1) by (simp add: Emplace_def Reset_at_invariant)
qed

text \<open>\<open>Emplace\<close> keeps the presence invariant, whether it returns or raises.\<close>

theorem Emplace_keeps_the_invariant:
  assumes "\<forall>a. presence_invariant (optionals M a)"
    and "Emplace T this Args M = Returns M' \<or> Emplace T this Args M = Throws M'"
  shows "\<forall>a. presence_invariant (optionals M' a)"
proof -
  have inv: "\<And>a. presence_invariant (optionals M a)" using assms(1) by simp
  let ?M1 = "store this Optional_default M"
  have r: "Reset_at this M = Inr ?M1"
    by (rule Reset_at_invariant [OF inv])
  have inv1: "\<And>a. presence_invariant (optionals ?M1 a)"
    using inv by (simp add: optionals_store invariant_default)
  show ?thesis
  proof (cases "read_arguments ?M1 Args")
    case (Inl f)
    then show ?thesis using assms(2) by (simp add: Emplace_def r)
  next
    case (Inr vs)
    let ?M2 = "leave_arguments Args (snd (construct T vs)) ?M1"
    have inv2: "\<And>a. presence_invariant (optionals ?M2 a)"
      by (rule leave_arguments_keeps_invariant [OF inv1 Inr])
    have "M' = ?M2 \<or> (\<exists>v. M' = store this
              ((optionals ?M2 this)\<lparr>m_Value := Holds v, m_HasValue := True\<rparr>) ?M2)"
      using assms(2) Inr
      by (cases "fst (construct T vs)")
         (auto simp: Emplace_def r Let_def set_HasValue_def placement_new_def optionals_store
           store_store)
    then show ?thesis using inv2
      by (auto simp: optionals_store invariant_flagged)
  qed
qed

theorem Emplace_keeps_the_invariant_witness:
  "(\<forall>a. presence_invariant (optionals mem0 a))
   \<and> Emplace guarded_int 2 [Val 7] mem0 = Returns (store 2 (present 7) mem0)
   \<and> (\<forall>a. presence_invariant (optionals (store 2 (present 7) mem0) a))"
proof -
  have h: "\<forall>a. presence_invariant (optionals mem0 a)"
    by (simp add: mem0_def invariant_present invariant_default)
  have r2: "Reset_at 2 mem0 = Inr (store 2 Optional_default mem0)"
    by (rule Reset_at_invariant) (simp add: h)
  have e: "Emplace guarded_int 2 [Val 7] mem0 = Returns (store 2 (present 7) mem0)"
    by (simp add: Emplace_def r2 guarded_int_def amount_def set_HasValue_def placement_new_def
        optionals_store store_store Optional_default_def present_def)
  from Emplace_keeps_the_invariant [OF h, of guarded_int 2 "[Val 7]" "store 2 (present 7) mem0"]
    h e
  show ?thesis by simp
qed

text \<open>The constructors establish the presence invariant and \<open>Reset\<close> keeps it.\<close>

theorem construction_establishes_the_invariant:
  "(Optional_value T v = Returns a \<longrightarrow> presence_invariant a)
   \<and> (Optional_rvalue T v = Returns (a, w) \<longrightarrow> presence_invariant a)
   \<and> (presence_invariant src \<and> Optional_copy T src = Returns a \<longrightarrow> presence_invariant a)
   \<and> (presence_invariant src \<and> Optional_move T src = Returns (a, src') \<longrightarrow>
        presence_invariant a \<and> presence_invariant src')
   \<and> (presence_invariant this \<and> Reset this = Inr this' \<longrightarrow> presence_invariant this')"
proof -
  have c: "presence_invariant src \<and> Optional_copy T src = Returns a \<longrightarrow> presence_invariant a"
    by (cases "m_Value src")
       (auto simp: Optional_copy_def Get_def presence_invariant_def Let_def split: if_splits)
  have m: "presence_invariant src \<and> Optional_move T src = Returns (a, src') \<longrightarrow>
        presence_invariant a \<and> presence_invariant src'"
    by (cases "m_Value src")
       (auto simp: Optional_move_def Get_def presence_invariant_def Let_def split: if_splits)
  have r: "presence_invariant this \<and> Reset this = Inr this' \<longrightarrow> presence_invariant this'"
    by (auto simp: Reset_invariant presence_invariant_def)
  have v: "(Optional_value T v = Returns a \<longrightarrow> presence_invariant a)
   \<and> (Optional_rvalue T v = Returns (a, w) \<longrightarrow> presence_invariant a)"
    by (auto simp: Optional_value_def Optional_rvalue_def presence_invariant_def
        split: if_splits)
  from c m r v show ?thesis by blast
qed

theorem construction_establishes_the_invariant_witness:
  "Optional_value guarded_int 7 = Returns (present 7) \<and> presence_invariant (present (7::int))
   \<and> Optional_move guarded_int (present 7) = Returns (present 7, present 0)
   \<and> presence_invariant (present (0::int))
   \<and> Reset (present (7::int)) = Inr Optional_default
   \<and> presence_invariant (Optional_default :: int Optional)"
proof -
  have e1: "Optional_value guarded_int 7 = Returns (present 7)"
    by (simp add: Optional_value_def guarded_int_def present_def)
  have e2: "Optional_move guarded_int (present 7) = Returns (present 7, present 0)"
    by (simp add: Optional_move_def guarded_int_def present_def Get_def)
  have e3: "Reset (present (7::int)) = Inr Optional_default"
    by (simp add: Reset_def present_def Get_def Optional_default_def)
  from construction_establishes_the_invariant
      [where T = guarded_int and v = 7 and a = "present 7" and w = 0 and src = "present 7"
        and src' = "present 0" and this = "present (7::int)"
        and this' = "Optional_default :: int Optional"]
    e1 e2 e3
  show ?thesis by (simp add: invariant_present)
qed

text \<open>
  An empty \<open>int\<close> container: \<open>HasValue()\<close> is false and \<open>Get(42)\<close> gives 42; after
  \<open>Emplace(7)\<close>, \<open>HasValue()\<close> is true, \<open>GetValue()\<close> is 7 and \<open>Get(42)\<close> gives 7.
\<close>

theorem scenario_empty_then_emplace:
  "\<not> HasValue (optionals mem0 2)
   \<and> read mem0 (Optional_Get 2 (ObjectAt 43) mem0) = Inr 42
   \<and> Emplace guarded_int 2 [Val 7] mem0 = Returns (store 2 (present 7) mem0)
   \<and> HasValue (optionals (store 2 (present 7) mem0) 2)
   \<and> GetValue (optionals (store 2 (present 7) mem0) 2) = Inr 7
   \<and> read (store 2 (present 7) mem0) (Optional_Get 2 (ObjectAt 43) (store 2 (present 7) mem0))
       = Inr 7"
proof -
  have r2: "Reset_at 2 mem0 = Inr (store 2 Optional_default mem0)"
    by (rule Reset_at_invariant) (simp add: mem0_def invariant_default)
  have e: "Emplace guarded_int 2 [Val 7] mem0 = Returns (store 2 (present 7) mem0)"
    by (simp add: Emplace_def r2 guarded_int_def amount_def set_HasValue_def placement_new_def
        optionals_store store_store Optional_default_def present_def)
  have q: "\<not> HasValue (optionals mem0 2)
     \<and> read mem0 (Optional_Get 2 (ObjectAt 43) mem0) = Inr 42"
    by (simp add: mem0_def HasValue_def Optional_default_def Optional_Get_def read_def)
  have p: "HasValue (optionals (store 2 (present 7) mem0) 2)
     \<and> GetValue (optionals (store 2 (present 7) mem0) 2) = Inr 7
     \<and> read (store 2 (present 7) mem0)
          (Optional_Get 2 (ObjectAt 43) (store 2 (present 7) mem0)) = Inr 7"
    by (simp add: optionals_store HasValue_def GetValue_def Get_def present_def Optional_Get_def
        read_def)
  from e q p show ?thesis by simp
qed

end
